theory Spec2Isabelle
  imports Complex_Main "HOL-Library.AList"
begin

section \<open>GitScribe: the effort extractor and the burndown aggregator\<close>

text \<open>
  A shallow embedding of \<^verbatim>\<open>getTimeSpent\<close> and \<^verbatim>\<open>generateBurndownChart\<close> of the
  class \<^verbatim>\<open>GitScribe\<close>. The model keeps the order of the statements of the source and
  makes every exception of the JavaScript (a property read on \<^verbatim>\<open>undefined\<close> or
  \<^verbatim>\<open>null\<close>, an invalid array length) a value of the result.

  Conventions of the model:
  \<^item> a JavaScript number is a \<open>jsnum\<close>: an exact rational, one of the two infinities, or
    NaN. Rounding of doubles and the sign of zero are not modelled;
  \<^item> a timestamp (\<^verbatim>\<open>new Date(s)\<close> of a field of the GitLab API) is an \<open>int\<close>, the
    milliseconds since the epoch; an unparsable timestamp is excluded by the type;
  \<^item> a string is a list of 8-bit characters;
  \<^item> an array is a list of slots, \<open>None\<close> being a hole: JavaScript extends an array
    that is written past its end.
\<close>

subsection \<open>Numbers\<close>

datatype jsnum = Fin rat | PInf | NInf | NaN

fun jneg :: "jsnum \<Rightarrow> jsnum" where
  "jneg (Fin a) = Fin (- a)"
| "jneg PInf = NInf"
| "jneg NInf = PInf"
| "jneg NaN = NaN"

fun jadd :: "jsnum \<Rightarrow> jsnum \<Rightarrow> jsnum" where
  "jadd NaN _ = NaN"
| "jadd _ NaN = NaN"
| "jadd (Fin a) (Fin b) = Fin (a + b)"
| "jadd PInf NInf = NaN"
| "jadd NInf PInf = NaN"
| "jadd PInf _ = PInf"
| "jadd NInf _ = NInf"
| "jadd (Fin _) b = b"

definition jsub :: "jsnum \<Rightarrow> jsnum \<Rightarrow> jsnum" where
  "jsub a b = jadd a (jneg b)"

definition inf_of_sign :: "bool \<Rightarrow> jsnum" where
  "inf_of_sign positive = (if positive then PInf else NInf)"

fun jmul :: "jsnum \<Rightarrow> jsnum \<Rightarrow> jsnum" where
  "jmul NaN _ = NaN"
| "jmul _ NaN = NaN"
| "jmul (Fin a) (Fin b) = Fin (a * b)"
| "jmul (Fin a) PInf = (if a = 0 then NaN else inf_of_sign (0 < a))"
| "jmul (Fin a) NInf = (if a = 0 then NaN else inf_of_sign (a < 0))"
| "jmul PInf (Fin b) = (if b = 0 then NaN else inf_of_sign (0 < b))"
| "jmul NInf (Fin b) = (if b = 0 then NaN else inf_of_sign (b < 0))"
| "jmul PInf PInf = PInf"
| "jmul NInf NInf = PInf"
| "jmul PInf NInf = NInf"
| "jmul NInf PInf = NInf"

fun jdiv :: "jsnum \<Rightarrow> jsnum \<Rightarrow> jsnum" where
  "jdiv NaN _ = NaN"
| "jdiv _ NaN = NaN"
| "jdiv (Fin a) (Fin b) =
     (if b = 0 then (if a = 0 then NaN else inf_of_sign (0 < a)) else Fin (a / b))"
| "jdiv (Fin _) _ = Fin 0"
| "jdiv PInf (Fin b) = inf_of_sign (0 \<le> b)"
| "jdiv NInf (Fin b) = inf_of_sign (b < 0)"
| "jdiv _ _ = NaN"

text \<open>\<^verbatim>\<open>x || 0\<close> on a number: 0 and NaN are falsy.\<close>

definition or_zero :: "jsnum \<Rightarrow> jsnum" where
  "or_zero x = (if x = NaN then Fin 0 else x)"

abbreviation MILLISECONDS_IN_DAY :: int where
  "MILLISECONDS_IN_DAY \<equiv> 86400000"

text \<open>\<^verbatim>\<open>Math.round((a - b) / MILLISECONDS_IN_DAY)\<close>: JavaScript rounds a half up.\<close>

definition dayOf :: "int \<Rightarrow> int \<Rightarrow> int" where
  "dayOf t startDate = round (rat_of_int (t - startDate) / rat_of_int MILLISECONDS_IN_DAY)"

subsection \<open>Arrays\<close>

type_synonym jsarray = "jsnum option list"

text \<open>\<^verbatim>\<open>new Array(n).fill(0)\<close>.\<close>

definition filled :: "nat \<Rightarrow> jsarray" where
  "filled n = replicate n (Some (Fin 0))"

text \<open>
  \<^verbatim>\<open>arr[i] += v\<close>. Reading a hole or past the end gives \<^verbatim>\<open>undefined\<close>, and
  \<^verbatim>\<open>undefined + v\<close> is NaN; writing past the end extends the array and leaves holes.
  A key that is not an array index (\<^verbatim>\<open>null\<close>, NaN, or a number above \<open>2^32 - 2\<close>)
  sets a named property and leaves the elements alone: it is \<open>None\<close> here.
\<close>

definition addAt :: "jsarray \<Rightarrow> nat option \<Rightarrow> jsnum \<Rightarrow> jsarray" where
  "addAt arr key v =
     (case key of
        None \<Rightarrow> arr
      | Some i \<Rightarrow>
          if 4294967295 \<le> int i then arr
          else if i < length arr
            then arr[i := Some (case arr ! i of Some x \<Rightarrow> jadd x v | None \<Rightarrow> NaN)]
            else arr @ replicate (i - length arr) None @ [Some NaN])"

text \<open>\<^verbatim>\<open>arr.reduce((sum, x) => sum + x, 0)\<close>; \<^verbatim>\<open>reduce\<close> skips holes.\<close>

definition sumArray :: "jsarray \<Rightarrow> jsnum" where
  "sumArray arr = foldl jadd (Fin 0) (List.map_filter id arr)"

text \<open>\<^verbatim>\<open>arr.slice(0, i + 1).reduce((sum, x) => sum + x, 0)\<close>.\<close>

definition prefixSum :: "jsarray \<Rightarrow> nat \<Rightarrow> jsnum" where
  "prefixSum arr i = sumArray (take (i + 1) arr)"

subsection \<open>Regular expressions\<close>

text \<open>
  The regular expressions of the source are sequences of atoms: a character, a character
  class, a greedy star of a class, and the end of the input. \<open>run\<close> matches a sequence at
  the start of a string, in the order of a backtracking matcher (a star first takes as
  much as it can), and returns the text taken by each atom. \<open>search\<close> is
  \<^verbatim>\<open>String.prototype.match\<close> without the \<^verbatim>\<open>g\<close> flag: the leftmost match.
\<close>

datatype cls = AnyChar | DigitChar

fun in_cls :: "cls \<Rightarrow> char \<Rightarrow> bool" where
  "in_cls AnyChar c = (c \<noteq> CHR 0x0A \<and> c \<noteq> CHR 0x0D)"
| "in_cls DigitChar c = (c \<in> set ''0123456789'')"

datatype atom = Chr char | Cls cls | Star cls | Eos

fun run :: "atom list \<Rightarrow> string \<Rightarrow> string list option" where
  "run [] s = Some []"
| "run (Eos # as) s = (if s = [] then map_option ((#) []) (run as s) else None)"
| "run (Chr c # as) [] = None"
| "run (Chr c # as) (x # xs) =
     (if x = c then map_option ((#) [x]) (run as xs) else None)"
| "run (Cls k # as) [] = None"
| "run (Cls k # as) (x # xs) =
     (if in_cls k x then map_option ((#) [x]) (run as xs) else None)"
| "run (Star k # as) [] = map_option ((#) []) (run as [])"
| "run (Star k # as) (x # xs) =
     (if in_cls k x
      then (case run (Star k # as) xs of
              Some r \<Rightarrow> Some ((x # hd r) # tl r)
            | None \<Rightarrow> map_option ((#) []) (run as (x # xs)))
      else map_option ((#) []) (run as (x # xs)))"

fun search :: "atom list \<Rightarrow> string \<Rightarrow> string list option" where
  "search as [] = run as []"
| "search as (x # xs) =
     (case run as (x # xs) of Some r \<Rightarrow> Some r | None \<Rightarrow> search as xs)"

definition lit :: "string \<Rightarrow> atom list" where
  "lit s = map Chr s"

definition digits :: "nat \<Rightarrow> atom list" where
  "digits n = replicate n (Cls DigitChar)"

text \<open>\<^verbatim>\<open>\d{4}-\d{2}-\d{2}\<close>\<close>

definition rx_date :: "atom list" where
  "rx_date = digits 4 @ lit ''-'' @ digits 2 @ lit ''-'' @ digits 2"

text \<open>\<^verbatim>\<open>/^added.*at \d{4}-\d{2}-\d{2}$/\<close>; the \<^verbatim>\<open>^\<close> is the use of \<open>run\<close>.\<close>

definition rx_spending :: "atom list" where
  "rx_spending = lit ''added'' @ [Star AnyChar] @ lit ''at '' @ rx_date @ [Eos]"

text \<open>\<^verbatim>\<open>/added (.*) at/\<close>; the group is atom 6.\<close>

definition rx_time :: "atom list" where
  "rx_time = lit ''added '' @ [Star AnyChar] @ lit '' at''"

text \<open>\<^verbatim>\<open>/\d+d/\<close>, \<^verbatim>\<open>/\d+h/\<close>, \<^verbatim>\<open>/\d+m/\<close>\<close>

definition rx_unit :: "char \<Rightarrow> atom list" where
  "rx_unit u = [Cls DigitChar, Star DigitChar, Chr u]"

text \<open>\<^verbatim>\<open>/at (\d{4}-\d{2}-\d{2})/\<close>; the group is atoms 3 to 12.\<close>

definition rx_at_date :: "atom list" where
  "rx_at_date = lit ''at '' @ rx_date"

subsection \<open>Data model\<close>

text \<open>
  The objects of the GitLab API, with the fields the two functions read. An issue's
  \<^verbatim>\<open>closedAt\<close> is \<^verbatim>\<open>null\<close> while the issue is open; \<open>totalTimeSpent\<close> is
  \<^verbatim>\<open>issue.timeStats.totalTimeSpent\<close>, in seconds.
\<close>

record gitlab_note =
  body :: string
  system :: bool
  createdAt :: int
  updatedAt :: int

record comment =
  author :: string
  "notes" :: "gitlab_note list"

record issue =
  discussion :: "comment list"
  closedAt :: "int option"
  totalTimeSpent :: int

record milestone =
  title :: string
  iid :: nat
  startDate :: int
  dueDate :: int

text \<open>
  The object built for each spending by \<^verbatim>\<open>getTimeSpent\<close>: its fields \<^verbatim>\<open>author\<close>,
  \<^verbatim>\<open>date\<close>, \<^verbatim>\<open>days\<close>, \<^verbatim>\<open>hours\<close>, \<^verbatim>\<open>minutes\<close> and \<^verbatim>\<open>totalHours\<close>. The
  date is \<^verbatim>\<open>date.getTime()\<close>, \<open>None\<close> for an invalid date (NaN).
\<close>

record spending =
  spentBy :: string
  date :: "int option"
  spentDays :: nat
  spentHours :: nat
  spentMinutes :: nat
  totalHours :: jsnum

text \<open>
  The object \<^verbatim>\<open>{total, days}\<close>. The keys of \<^verbatim>\<open>days\<close> are the decimal texts of
  timestamps (\<open>None\<close> is the key \<^verbatim>\<open>"NaN"\<close>); the list keeps the order of insertion.
\<close>

record effort =
  total :: jsnum
  dayMap :: "(int option \<times> jsnum) list"

datatype error = TypeError | RangeError

subsection \<open>Text helpers\<close>

text \<open>
  \<^verbatim>\<open>Number(s)\<close> for a string of decimal digits, as the exact natural number. The
  source gets a double: above \<open>2^53\<close> the number is rounded, and a run of more than 308
  digits gives Infinity. The properties below use it on short runs of digits only, or
  do not depend on its value.
\<close>

definition toNumber :: "string \<Rightarrow> nat" where
  "toNumber s = foldl (\<lambda>a c. 10 * a + (of_char c - 48)) 0 s"

text \<open>The decimal text of a number in a template string.\<close>

definition digitChar :: "nat \<Rightarrow> char" where
  "digitChar d = ''0123456789'' ! d"

fun toDecimal :: "nat \<Rightarrow> string" where
  "toDecimal n =
     (if 10 \<le> n then toDecimal (n div 10) @ [digitChar (n mod 10)] else [digitChar n])"

text \<open>
  \<^verbatim>\<open>new Date(s).getTime()\<close> for a text \<^verbatim>\<open>YYYY-MM-DD\<close>: midnight UTC of that day.
  \<open>days_from_civil\<close> counts the days from 1970-01-01 in the proleptic Gregorian
  calendar. A month outside 1 to 12 or a day outside 1 to 31 is an invalid date; a day
  past the end of a month carries into the next month, as in Node.
\<close>

definition days_from_civil :: "int \<Rightarrow> int \<Rightarrow> int \<Rightarrow> int" where
  "days_from_civil y m d =
     (let y' = (if m \<le> 2 then y - 1 else y);
          era = y' div 400;
          yoe = y' - era * 400;
          doy = (153 * (if 2 < m then m - 3 else m + 9) + 2) div 5 + d - 1;
          doe = yoe * 365 + yoe div 4 - yoe div 100 + doy
      in era * 146097 + doe - 719468)"

definition dateGetTime :: "string \<Rightarrow> int option" where
  "dateGetTime s =
     (let y = int (toNumber (take 4 s));
          m = int (toNumber (take 2 (drop 5 s)));
          d = int (toNumber (take 2 (drop 8 s)))
      in if 1 \<le> m \<and> m \<le> 12 \<and> 1 \<le> d \<and> d \<le> 31
         then Some (MILLISECONDS_IN_DAY * days_from_civil y m d) else None)"

subsection \<open>Results with exceptions\<close>

fun filterE :: "('a \<Rightarrow> error + bool) \<Rightarrow> 'a list \<Rightarrow> error + 'a list" where
  "filterE p [] = Inr []"
| "filterE p (x # xs) =
     (case p x of
        Inl e \<Rightarrow> Inl e
      | Inr b \<Rightarrow> (case filterE p xs of
                   Inl e \<Rightarrow> Inl e
                 | Inr ys \<Rightarrow> Inr (if b then x # ys else ys)))"

fun mapE :: "('a \<Rightarrow> error + 'b) \<Rightarrow> 'a list \<Rightarrow> error + 'b list" where
  "mapE f [] = Inr []"
| "mapE f (x # xs) =
     (case f x of
        Inl e \<Rightarrow> Inl e
      | Inr y \<Rightarrow> (case mapE f xs of Inl e \<Rightarrow> Inl e | Inr ys \<Rightarrow> Inr (y # ys)))"

subsection \<open>The effort extractor: getTimeSpent\<close>

text \<open>
  The callback of \<^verbatim>\<open>filter\<close>. \<^verbatim>\<open>comment.notes[0]\<close> of an empty list is
  \<^verbatim>\<open>undefined\<close>, and reading its \<^verbatim>\<open>body\<close> throws a TypeError.
\<close>

definition isSpendingComment :: "int \<Rightarrow> int \<Rightarrow> comment \<Rightarrow> error + bool" where
  "isSpendingComment startD endD c =
     (case notes c of
        [] \<Rightarrow> Inl TypeError
      | n # _ \<Rightarrow>
          let isSpending = run rx_spending (body n);
              isBySystem = system n;
              isWithinInterval = (startD \<le> createdAt n \<and> createdAt n \<le> endD)
          in Inr (isSpending \<noteq> None \<and> isBySystem \<and> isWithinInterval))"

text \<open>
  \<^verbatim>\<open>m ? m[0].slice(0, -1) : 0\<close> under \<^verbatim>\<open>Number\<close>, for the match \<open>m\<close> of
  \<^verbatim>\<open>/\d+u/\<close> in the duration text.
\<close>

definition unitAmount :: "char \<Rightarrow> string \<Rightarrow> nat" where
  "unitAmount u humanReadableTime =
     (case search (rx_unit u) humanReadableTime of
        Some m \<Rightarrow> toNumber (butlast (concat m))
      | None \<Rightarrow> 0)"

text \<open>
  The callback of \<^verbatim>\<open>map\<close>. \<^verbatim>\<open>body.match(...)[1]\<close> throws a TypeError when the
  match is \<^verbatim>\<open>null\<close>.
\<close>

definition toSpending :: "comment \<Rightarrow> error + spending" where
  "toSpending c =
     (case notes c of
        [] \<Rightarrow> Inl TypeError
      | n # _ \<Rightarrow>
          (case search rx_time (body n) of
             None \<Rightarrow> Inl TypeError
           | Some r \<Rightarrow>
               let humanReadableTime = r ! 6;
                   ds = unitAmount (CHR ''d'') humanReadableTime;
                   hs = unitAmount (CHR ''h'') humanReadableTime;
                   ms = unitAmount (CHR ''m'') humanReadableTime;
                   hours = jadd (jadd (jmul (Fin (of_nat ds)) (Fin 8)) (Fin (of_nat hs)))
                             (jdiv (Fin (of_nat ms)) (Fin 60))
               in (case search rx_at_date (body n) of
                     None \<Rightarrow> Inl TypeError
                   | Some r' \<Rightarrow>
                       Inr \<lparr>spentBy = author c, date = dateGetTime (concat (drop 3 r')),
                            spentDays = ds, spentHours = hs, spentMinutes = ms,
                            totalHours = hours\<rparr>)))"

text \<open>
  \<^verbatim>\<open>timeSpent[key]\<close>, the read on the right of the assignment in the last loop. It is
  a read of the object \<^verbatim>\<open>timeSpent\<close> itself, whose properties are \<^verbatim>\<open>total\<close> and
  \<^verbatim>\<open>days\<close>, at the decimal text of a number: it is always \<^verbatim>\<open>undefined\<close>.
\<close>

definition readTimeSpent :: "effort \<Rightarrow> int option \<Rightarrow> jsnum option" where
  "readTimeSpent timeSpent key = None"

text \<open>\<^verbatim>\<open>timeSpent.days[key] = (timeSpent[key] || 0) + spending.totalHours\<close>\<close>

definition addSpending :: "effort \<Rightarrow> spending \<Rightarrow> effort" where
  "addSpending timeSpent sp =
     timeSpent\<lparr>dayMap :=
       AList.update (date sp)
         (jadd (case readTimeSpent timeSpent (date sp) of
                  Some x \<Rightarrow> or_zero x
                | None \<Rightarrow> Fin 0)
               (totalHours sp))
         (dayMap timeSpent)\<rparr>"

definition getTimeSpent :: "issue \<Rightarrow> int \<Rightarrow> int \<Rightarrow> error + effort" where
  "getTimeSpent i startD endD =
     (case filterE (isSpendingComment startD endD) (discussion i) of
        Inl e \<Rightarrow> Inl e
      | Inr cs \<Rightarrow>
          (case mapE toSpending cs of
             Inl e \<Rightarrow> Inl e
           | Inr spendings \<Rightarrow>
               let t = foldl (\<lambda>t sp. jadd t (totalHours sp)) (Fin 0) spendings
               in Inr (foldl addSpending \<lparr>total = t, dayMap = []\<rparr> spendings)))"

subsection \<open>The burndown aggregator: generateBurndownChart\<close>

text \<open>
  The options after the defaults are merged with the caller's. The two callbacks may
  throw; \<open>getEffort\<close> may return \<^verbatim>\<open>null\<close> (\<open>None\<close>). The canvas size is left out.
\<close>

record options =
  getEffort :: "issue \<Rightarrow> error + effort option"
  getEffortEstimate :: "issue \<Rightarrow> error + effort"
  includeOpen :: bool
  useEstimate :: bool

definition defaultOptions :: "milestone \<Rightarrow> options" where
  "defaultOptions m =
     \<lparr>getEffort = (\<lambda>i. map_sum id Some (getTimeSpent i (startDate m) (dueDate m))),
      getEffortEstimate =
        (\<lambda>i. Inr \<lparr>total = Fin (rat_of_int (totalTimeSpent i) / 60 / 60), dayMap = []\<rparr>),
      includeOpen = False,
      useEstimate = False\<rparr>"

text \<open>The four arrays filled by the loop over the issues.\<close>

record series =
  issuesOpenedByDay :: jsarray
  issuesClosedByDay :: jsarray
  effortSpentByDay :: jsarray
  effortEstimatedByDay :: jsarray

text \<open>\<^verbatim>\<open>Math.ceil((dueDate - startDate) / MILLISECONDS_IN_DAY + 1)\<close>\<close>

definition daysOf :: "milestone \<Rightarrow> int" where
  "daysOf m =
     \<lceil>rat_of_int (dueDate m - startDate m) / rat_of_int MILLISECONDS_IN_DAY + 1\<rceil>"

text \<open>
  The comparator of \<^verbatim>\<open>sort\<close> puts the newest \<^verbatim>\<open>notes[0].updatedAt\<close> first; the
  sort is stable. It runs after \<^verbatim>\<open>getTimeSpent\<close> has read the first note of every
  comment, so every comment has one.
\<close>

definition sortDiscussion :: "comment list \<Rightarrow> comment list" where
  "sortDiscussion cs = sort_key (\<lambda>c. - updatedAt (hd (notes c))) cs"

text \<open>The callback of \<^verbatim>\<open>find\<close>.\<close>

definition isMilestoneChange :: "milestone \<Rightarrow> comment \<Rightarrow> bool" where
  "isMilestoneChange m c =
     list_ex (\<lambda>n.
        let changedMilestone =
              (body n = ''changed milestone to %\"'' @ title m @ ''\"''
               \<or> body n = ''changed milestone to %'' @ toDecimal (iid m));
            isBySystem = system n
        in changedMilestone \<and> isBySystem) (notes c)"

text \<open>
  \<^verbatim>\<open>Math.max(0, Math.round((Number(date) - startDate) / MILLISECONDS_IN_DAY))\<close> as
  an array key; the key \<^verbatim>\<open>"NaN"\<close> gives NaN, which is no array index.
\<close>

definition dayIndex :: "int \<Rightarrow> int option \<Rightarrow> nat option" where
  "dayIndex startD key = map_option (\<lambda>t. nat (max 0 (dayOf t startD))) key"

text \<open>
  \<^verbatim>\<open>Object.keys(effort.days)\<close>: the keys that are array indices first, ascending,
  then the others in the order of insertion.
\<close>

definition isIndexKey :: "int option \<Rightarrow> bool" where
  "isIndexKey key = (case key of Some k \<Rightarrow> 0 \<le> k \<and> k < 4294967295 | None \<Rightarrow> False)"

definition objectKeys :: "(int option \<times> jsnum) list \<Rightarrow> int option list" where
  "objectKeys m =
     sort_key (\<lambda>key. case key of Some k \<Rightarrow> k | None \<Rightarrow> 0) (filter isIndexKey (map fst m))
     @ filter (\<lambda>key. \<not> isIndexKey key) (map fst m)"

text \<open>
  The loop over \<^verbatim>\<open>Object.keys(effort.days)\<close>, then the branch for an effort without
  days, which adds the total at \<^verbatim>\<open>dayClosed\<close> (\<^verbatim>\<open>null\<close> for an open issue).
\<close>

definition foldEffort :: "int \<Rightarrow> int option \<Rightarrow> effort \<Rightarrow> jsarray \<Rightarrow> jsarray" where
  "foldEffort startD dayClosed e spent =
     (let keys = objectKeys (dayMap e);
          spent' = fold (\<lambda>key arr.
                      addAt arr (dayIndex startD key)
                        (case map_of (dayMap e) key of Some v \<Rightarrow> v | None \<Rightarrow> NaN))
                    keys spent
      in if length keys = 0
         then addAt spent' (map_option nat dayClosed) (total e)
         else spent')"

text \<open>
  The body of the loop over the issues for one issue. \<^verbatim>\<open>sort\<close> sorts the discussion
  of the issue in place, so the callbacks of the options see the sorted discussion.
\<close>

definition processIssue ::
  "milestone \<Rightarrow> options \<Rightarrow> int \<Rightarrow> series \<Rightarrow> issue \<Rightarrow> error + series" where
  "processIssue m opts days st i =
     (case getTimeSpent i (startDate m) (dueDate m) of
        Inl e \<Rightarrow> Inl e
      | Inr _ \<Rightarrow>
     let sorted = sortDiscussion (discussion i);
         i' = i\<lparr>discussion := sorted\<rparr>
     in
     (case find (isMilestoneChange m) sorted of
        None \<Rightarrow> Inl TypeError
      | Some lastMilestoneChangeComment \<Rightarrow>
     (case notes lastMilestoneChangeComment of
        [] \<Rightarrow> Inl TypeError
      | n # _ \<Rightarrow>
     let dayAdded = max 0 (dayOf (updatedAt n) (startDate m));
         dayClosed = map_option (\<lambda>t. dayOf t (startDate m)) (closedAt i)
     in
     if dayAdded \<ge> days then Inr st
     else if (case dayClosed of Some d \<Rightarrow> d < 0 | None \<Rightarrow> False) then Inr st
     else
     (case getEffortEstimate opts i' of
        Inl e \<Rightarrow> Inl e
      | Inr estimate \<Rightarrow>
     let st1 = st\<lparr>issuesOpenedByDay :=
                    addAt (issuesOpenedByDay st) (Some (nat dayAdded)) (Fin 1),
                  effortEstimatedByDay :=
                    addAt (effortEstimatedByDay st) (Some (nat dayAdded))
                      (or_zero (total estimate))\<rparr>;
         wasClosedWithinMilestone =
           (case dayClosed of Some d \<Rightarrow> d \<le> days | None \<Rightarrow> False);
         st2 = (if wasClosedWithinMilestone
                then st1\<lparr>issuesClosedByDay :=
                       addAt (issuesClosedByDay st1) (map_option nat dayClosed) (Fin 1)\<rparr>
                else st1);
         isOpenAndShouldBeIncluded = (dayClosed = None \<and> includeOpen opts)
     in
     if wasClosedWithinMilestone \<or> isOpenAndShouldBeIncluded
     then (case getEffort opts i' of
             Inl e \<Rightarrow> Inl e
           | Inr r \<Rightarrow>
               let e = (case r of Some e \<Rightarrow> e | None \<Rightarrow> \<lparr>total = Fin 0, dayMap = []\<rparr>)
               in Inr (st2\<lparr>effortSpentByDay :=
                         foldEffort (startDate m) dayClosed e (effortSpentByDay st2)\<rparr>))
     else Inr st2))))"

fun processIssues ::
  "milestone \<Rightarrow> options \<Rightarrow> int \<Rightarrow> series \<Rightarrow> issue list \<Rightarrow> error + series" where
  "processIssues m opts days st [] = Inr st"
| "processIssues m opts days st (i # is) =
     (case processIssue m opts days st i of
        Inl e \<Rightarrow> Inl e
      | Inr st' \<Rightarrow> processIssues m opts days st' is)"

text \<open>
  The data of the chart configuration handed to the renderer, with the four arrays and
  the total they are derived from.
\<close>

record chart =
  labels :: "string list"
  remainingEffort :: "jsnum list"
  idealBurndown :: "jsnum list"
  remainingTasks :: "jsnum list"
  completedTasks :: jsarray
  totalEffort :: jsnum
  byDay :: series

definition deriveChart :: "options \<Rightarrow> nat \<Rightarrow> series \<Rightarrow> chart" where
  "deriveChart opts days st =
     (let spent = effortSpentByDay st;
          estimated = effortEstimatedByDay st;
          totalE = (if useEstimate opts then sumArray estimated else sumArray spent);
          remainingE =
            (if useEstimate opts
             then map (\<lambda>i. jsub (prefixSum estimated i) (prefixSum spent i)) [0..<days]
             else map (\<lambda>i. jsub totalE (prefixSum spent i)) [0..<days])
      in \<lparr>labels = map (\<lambda>day. ''Day '' @ toDecimal (day + 1)) [0..<days],
          remainingEffort = remainingE,
          idealBurndown =
            map (\<lambda>i. jsub totalE
                       (jmul (jdiv totalE (Fin (rat_of_nat days - 1))) (Fin (rat_of_nat i))))
              [0..<days],
          remainingTasks =
            map (\<lambda>i. jsub (prefixSum (issuesOpenedByDay st) i)
                           (prefixSum (issuesClosedByDay st) i)) [0..<days],
          completedTasks = issuesClosedByDay st,
          totalEffort = totalE,
          byDay = st\<rparr>)"

text \<open>
  \<^verbatim>\<open>new Array(days)\<close> throws a RangeError for a negative length and for a length
  above \<open>2^32 - 1\<close>.
\<close>

definition generateBurndownChart ::
  "milestone \<Rightarrow> issue list \<Rightarrow> options \<Rightarrow> error + chart" where
  "generateBurndownChart m milestoneIssues opts =
     (let days = daysOf m
      in if days < 0 \<or> 4294967295 < days then Inl RangeError
         else
           (case processIssues m opts days
                   \<lparr>issuesOpenedByDay = filled (nat days),
                    issuesClosedByDay = filled (nat days),
                    effortSpentByDay = filled (nat days),
                    effortEstimatedByDay = filled (nat days)\<rparr>
                   milestoneIssues of
              Inl e \<Rightarrow> Inl e
            | Inr st \<Rightarrow> Inr (deriveChart opts (nat days) st)))"

text \<open>
  What the loop keeps of the lengths of the four arrays, for a milestone of \<open>n\<close> days:
  the arrays indexed by the day of adding keep the length \<open>n\<close>, the two others may grow.
\<close>

definition lengths_ok :: "nat \<Rightarrow> series \<Rightarrow> bool" where
  "lengths_ok n st \<longleftrightarrow>
     length (issuesOpenedByDay st) = n \<and> length (effortEstimatedByDay st) = n
     \<and> n \<le> length (issuesClosedByDay st) \<and> length (issuesClosedByDay st) \<le> Suc n
     \<and> n \<le> length (effortSpentByDay st)"

subsection \<open>Example data\<close>

text \<open>
  A milestone from 2020-02-01 to 2020-02-05 (five days) and issues around it. \<open>feb k\<close>
  is midnight UTC of the \<open>k\<close>-th of February 2020.
\<close>

definition feb :: "int \<Rightarrow> int" where
  "feb k = 1580515200000 + (k - 1) * MILLISECONDS_IN_DAY"

definition sprint :: milestone where
  "sprint = \<lparr>title = ''Sprint 1'', iid = 3, startDate = feb 1, dueDate = feb 5\<rparr>"

definition systemNote :: "string \<Rightarrow> int \<Rightarrow> comment" where
  "systemNote b t =
     \<lparr>author = ''ghost'',
      notes = [\<lparr>body = b, system = True, createdAt = t, updatedAt = t\<rparr>]\<rparr>"

definition assigned :: comment where
  "assigned = systemNote ''changed milestone to %\"Sprint 1\"'' (feb 1)"

text \<open>Closed on 2020-02-06 at 01:00, the day after the due date.\<close>

definition closedLate :: issue where
  "closedLate =
     \<lparr>discussion = [assigned], closedAt = Some (feb 6 + 3600000), totalTimeSpent = 0\<rparr>"

text \<open>Closed on 2020-02-06 at 10:00, with one hour logged on 2020-02-02.\<close>

definition closedAfterDue :: issue where
  "closedAfterDue =
     \<lparr>discussion = [assigned, systemNote ''added 1h of time spent at 2020-02-02'' (feb 2)],
      closedAt = Some (feb 6 + 36000000), totalTimeSpent = 3600\<rparr>"

text \<open>An issue that was created in the milestone: no note records a change.\<close>

definition unassigned :: issue where
  "unassigned =
     \<lparr>discussion = [systemNote ''added 1h of time spent at 2020-02-02'' (feb 2)],
      closedAt = Some (feb 3), totalTimeSpent = 3600\<rparr>"

text \<open>Two spendings logged for the same day.\<close>

definition twoSpendings :: issue where
  "twoSpendings =
     \<lparr>discussion = [assigned,
                     systemNote ''added 1h of time spent at 2020-02-03'' (feb 3),
                     systemNote ''added 2h of time spent at 2020-02-03'' (feb 3 + 60000)],
      closedAt = Some (feb 4), totalTimeSpent = 10800\<rparr>"

text \<open>A milestone of one day, and an issue closed on that day with one hour logged.\<close>

definition oneDay :: milestone where
  "oneDay = \<lparr>title = ''Sprint 1'', iid = 3, startDate = feb 1, dueDate = feb 1\<rparr>"

definition closedSameDay :: issue where
  "closedSameDay =
     \<lparr>discussion = [assigned, systemNote ''added 1h of time spent at 2020-02-01'' (feb 1)],
      closedAt = Some (feb 1 + 3600000), totalTimeSpent = 3600\<rparr>"

text \<open>Closed inside the window; the hour was logged for 2020-02-07, after the due date.\<close>

definition spentAfterDue :: issue where
  "spentAfterDue =
     \<lparr>discussion = [assigned, systemNote ''added 1h of time spent at 2020-02-07'' (feb 3)],
      closedAt = Some (feb 3), totalTimeSpent = 3600\<rparr>"

definition spentExample :: comment where
  "spentExample = systemNote ''added 1d 2h 30m of time spent at 2020-02-25'' (feb 2)"

definition spentExampleIssue :: issue where
  "spentExampleIssue =
     \<lparr>discussion = [assigned, spentExample], closedAt = None, totalTimeSpent = 37800\<rparr>"

text \<open>A milestone whose due date is one day, and one of two days, before its start.\<close>

definition backwards :: "int \<Rightarrow> milestone" where
  "backwards k = \<lparr>title = ''Sprint 1'', iid = 3, startDate = feb 3, dueDate = feb (3 - k)\<rparr>"

text \<open>A note that the filter accepts and in which no \<^verbatim>\<open>" at"\<close> follows \<^verbatim>\<open>"added "\<close>.\<close>

definition noDuration :: comment where
  "noDuration = systemNote ''added at 2020-02-02'' (feb 2)"

text \<open>An open issue with one hour logged.\<close>

definition stillOpen :: issue where
  "stillOpen =
     \<lparr>discussion = [assigned, systemNote ''added 1h of time spent at 2020-02-02'' (feb 2)],
      closedAt = None, totalTimeSpent = 3600\<rparr>"

section \<open>Properties\<close>

subsection \<open>Exceptions\<close>

lemma filterE_Inl: "filterE p xs = Inl e \<Longrightarrow> \<exists>x \<in> set xs. p x = Inl e"
  by (induction xs) (auto split: sum.splits)

lemma mapE_Inl: "mapE f xs = Inl e \<Longrightarrow> \<exists>x \<in> set xs. f x = Inl e"
  by (induction xs) (auto split: sum.splits)

lemma isSpendingComment_Inl: "isSpendingComment s d c = Inl e \<Longrightarrow> e = TypeError"
  by (auto simp: isSpendingComment_def Let_def split: list.splits)

lemma toSpending_Inl: "toSpending c = Inl e \<Longrightarrow> e = TypeError"
  by (auto simp: toSpending_def Let_def split: list.splits option.splits)

lemma getTimeSpent_Inl: "getTimeSpent i s d = Inl e \<Longrightarrow> e = TypeError"
  unfolding getTimeSpent_def
  by (auto simp: Let_def split: sum.splits dest!: filterE_Inl mapE_Inl
      dest: isSpendingComment_Inl toSpending_Inl)

lemma find_sortDiscussion_None:
  "\<not> list_ex P cs \<Longrightarrow> find P (sortDiscussion cs) = None"
  by (simp add: find_None_iff sortDiscussion_def list_ex_iff)

lemma processIssue_no_evidence:
  assumes "\<not> list_ex (isMilestoneChange m) (discussion i)"
  shows "processIssue m opts days st i = Inl TypeError"
proof (cases "getTimeSpent i (startDate m) (dueDate m)")
  case (Inl e)
  then show ?thesis
    using getTimeSpent_Inl [OF Inl] by (simp add: processIssue_def)
next
  case (Inr r)
  then show ?thesis
    using find_sortDiscussion_None [OF assms]
    by (simp add: processIssue_def Let_def)
qed

lemma processIssues_fails:
  assumes fails: "\<And>st. isl (processIssue m opts days st i)"
  shows "i \<in> set issues \<Longrightarrow> isl (processIssues m opts days st issues)"
proof (induction issues arbitrary: st)
  case Nil
  then show ?case by simp
next
  case (Cons a as)
  show ?case
  proof (cases "processIssue m opts days st a")
    case (Inl e)
    then show ?thesis by simp
  next
    case (Inr st')
    with fails [of st] have "a \<noteq> i" by auto
    with Cons.prems have "i \<in> set as" by simp
    then have "isl (processIssues m opts days st' as)" by (rule Cons.IH)
    with Inr show ?thesis by simp
  qed
qed

lemma daysOf_negative_iff:
  "daysOf m < 0 \<longleftrightarrow> dueDate m + 2 * MILLISECONDS_IN_DAY \<le> startDate m"
proof -
  have "daysOf m < 0 \<longleftrightarrow> daysOf m \<le> - 1" by arith
  also have "\<dots> \<longleftrightarrow>
      rat_of_int (dueDate m - startDate m) / rat_of_int MILLISECONDS_IN_DAY + 1 \<le> - 1"
    unfolding daysOf_def ceiling_le_iff by simp
  also have "\<dots> \<longleftrightarrow>
      rat_of_int (dueDate m - startDate m) \<le> - 2 * rat_of_int MILLISECONDS_IN_DAY"
    by (simp add: field_simps)
  also have "\<dots> \<longleftrightarrow>
      rat_of_int (dueDate m - startDate m) \<le> rat_of_int (- 2 * MILLISECONDS_IN_DAY)"
    by simp
  also have "\<dots> \<longleftrightarrow> dueDate m - startDate m \<le> - 2 * MILLISECONDS_IN_DAY"
    by (rule of_int_le_iff)
  finally show ?thesis by arith
qed

text \<open>
  C3, as the code has it. An issue without a system note
  \<^verbatim>\<open>changed milestone to %"<title>"\<close> or \<^verbatim>\<open>changed milestone to %<iid>\<close> makes the
  loop body throw a TypeError: \<^verbatim>\<open>find\<close> returns \<^verbatim>\<open>undefined\<close> and the read of its
  \<^verbatim>\<open>notes\<close> is not guarded. The chart function then returns no chart: the exception
  reaches the caller.
\<close>

theorem missing_evidence_throws_TypeError:
  assumes "i \<in> set milestoneIssues"
    and "\<not> list_ex (isMilestoneChange m) (discussion i)"
  shows "processIssue m opts days st i = Inl TypeError
    \<and> isl (generateBurndownChart m milestoneIssues opts)"
proof -
  have step: "processIssue m opts d s i = Inl TypeError" for d s
    by (rule processIssue_no_evidence [OF assms(2)])
  have "isl (processIssues m opts d s milestoneIssues)" for d s
    by (rule processIssues_fails [OF _ assms(1)]) (simp add: step)
  then obtain e where
    "processIssues m opts (daysOf m)
       \<lparr>issuesOpenedByDay = filled (nat (daysOf m)),
        issuesClosedByDay = filled (nat (daysOf m)),
        effortSpentByDay = filled (nat (daysOf m)),
        effortEstimatedByDay = filled (nat (daysOf m))\<rparr> milestoneIssues = Inl e"
    unfolding isl_def by blast
  then have "isl (generateBurndownChart m milestoneIssues opts)"
    by (simp add: generateBurndownChart_def Let_def)
  with step show ?thesis by simp
qed

theorem missing_evidence_throws_TypeError_witness:
  "unassigned \<in> set [closedLate, unassigned]
   \<and> \<not> list_ex (isMilestoneChange sprint) (discussion unassigned)
   \<and> processIssue sprint (defaultOptions sprint) 5
        \<lparr>issuesOpenedByDay = [], issuesClosedByDay = [], effortSpentByDay = [],
         effortEstimatedByDay = []\<rparr> unassigned = Inl TypeError
   \<and> isl (generateBurndownChart sprint [closedLate, unassigned] (defaultOptions sprint))"
proof -
  have a: "unassigned \<in> set [closedLate, unassigned]" by simp
  have b: "\<not> list_ex (isMilestoneChange sprint) (discussion unassigned)" by code_simp
  show ?thesis
    using a b missing_evidence_throws_TypeError [OF a b] by simp
qed

text \<open>
  C3 as stated fails: the issue \<open>unassigned\<close> has no such note, and the chart function
  ends with the TypeError of the read on \<^verbatim>\<open>undefined\<close>.
\<close>

theorem missing_evidence_counterexample:
  "\<not> list_ex (isMilestoneChange sprint) (discussion unassigned)
   \<and> generateBurndownChart sprint [unassigned] (defaultOptions sprint) = Inl TypeError"
  by code_simp

text \<open>
  C8, as the code has it. The window is not validated. A due date two days or more
  before the start date gives a negative number of days, and \<^verbatim>\<open>new Array(days)\<close>
  throws a RangeError before any series exists.
\<close>

theorem negative_window_throws_RangeError:
  assumes "dueDate m + 2 * MILLISECONDS_IN_DAY \<le> startDate m"
  shows "generateBurndownChart m milestoneIssues opts = Inl RangeError"
  using assms daysOf_negative_iff [of m]
  by (simp add: generateBurndownChart_def Let_def)

theorem negative_window_throws_RangeError_witness:
  "dueDate (backwards 2) + 2 * MILLISECONDS_IN_DAY \<le> startDate (backwards 2)
   \<and> generateBurndownChart (backwards 2) [closedLate] (defaultOptions sprint)
       = Inl RangeError"
proof -
  have a: "dueDate (backwards 2) + 2 * MILLISECONDS_IN_DAY \<le> startDate (backwards 2)"
    by (simp add: backwards_def feb_def)
  show ?thesis
    using a negative_window_throws_RangeError [OF a] by simp
qed

text \<open>
  C8 as stated fails: with the due date one day before the start date the number of
  days is 0, nothing is thrown, and the chart has empty series.
\<close>

theorem invalid_window_counterexample:
  "dueDate (backwards 1) < startDate (backwards 1)
   \<and> daysOf (backwards 1) = 0
   \<and> generateBurndownChart (backwards 1) [] (defaultOptions (backwards 1))
       = Inr \<lparr>labels = [], remainingEffort = [], idealBurndown = [], remainingTasks = [],
              completedTasks = [], totalEffort = Fin 0,
              byDay = \<lparr>issuesOpenedByDay = [], issuesClosedByDay = [],
                       effortSpentByDay = [], effortEstimatedByDay = []\<rparr>\<rparr>"
  by code_simp

lemma short_backwards_window:
  assumes "dueDate m < startDate m"
    and "startDate m < dueDate m + 2 * MILLISECONDS_IN_DAY"
  shows "(daysOf m = 0 \<or> daysOf m = 1) \<and> \<not> isl (generateBurndownChart m [] opts)"
proof -
  from assms(2) have lo: "0 \<le> daysOf m"
    using daysOf_negative_iff [of m] by simp
  have "rat_of_int (dueDate m - startDate m) / rat_of_int MILLISECONDS_IN_DAY \<le> 0"
    using assms(1) by (simp add: divide_le_0_iff)
  then have "rat_of_int (dueDate m - startDate m) / rat_of_int MILLISECONDS_IN_DAY + 1
      \<le> rat_of_int 1"
    by simp
  then have hi: "daysOf m \<le> 1"
    unfolding daysOf_def ceiling_le_iff .
  from lo hi have "daysOf m = 0 \<or> daysOf m = 1" by arith
  moreover from lo hi have "\<not> isl (generateBurndownChart m [] opts)"
    by (simp add: generateBurndownChart_def Let_def)
  ultimately show ?thesis by simp
qed

subsection \<open>Lengths of the series\<close>

lemma length_addAt_inside:
  "i < length arr \<Longrightarrow> length (addAt arr (Some i) v) = length arr"
  by (simp add: addAt_def)

lemma length_addAt_ge: "length arr \<le> length (addAt arr key v)"
  by (simp add: addAt_def split: option.splits)

lemma length_addAt_le:
  "i \<le> n \<Longrightarrow> length arr \<le> Suc n \<Longrightarrow> length (addAt arr (Some i) v) \<le> Suc n"
  by (auto simp add: addAt_def)

lemma length_addAt_closed:
  "d \<le> int n \<Longrightarrow> length arr \<le> Suc n \<Longrightarrow> length (addAt arr (Some (nat d)) v) \<le> Suc n"
  by (rule length_addAt_le) auto

lemma length_addAt_mono: "n \<le> length arr \<Longrightarrow> n \<le> length (addAt arr key v)"
  using length_addAt_ge [of arr key v] by simp

lemma length_fold_addAt:
  "length arr \<le> length (fold (\<lambda>key a. addAt a (f key) (g key)) keys arr)"
proof (induction keys arbitrary: arr)
  case Nil
  then show ?case by simp
next
  case (Cons k keys)
  have "length arr \<le> length (addAt arr (f k) (g k))" by (rule length_addAt_ge)
  also have "\<dots> \<le>
      length (fold (\<lambda>key a. addAt a (f key) (g key)) keys (addAt arr (f k) (g k)))"
    by (rule Cons.IH)
  finally show ?case by simp
qed

lemma length_foldEffort: "length spent \<le> length (foldEffort s dc e spent)"
proof -
  let ?folded = "fold (\<lambda>key arr. addAt arr (dayIndex s key)
      (case map_of (dayMap e) key of Some v \<Rightarrow> v | None \<Rightarrow> NaN))
      (objectKeys (dayMap e)) spent"
  have a: "length spent \<le> length ?folded" by (rule length_fold_addAt)
  have b: "length ?folded \<le> length (addAt ?folded (map_option nat dc) (total e))"
    by (rule length_addAt_ge)
  from a b show ?thesis
    by (auto simp add: foldEffort_def Let_def)
qed

lemma length_foldEffort_mono:
  "n \<le> length arr \<Longrightarrow> n \<le> length (foldEffort s dc e arr)"
  using length_foldEffort [of arr s dc e] by simp

lemma processIssue_lengths:
  assumes "processIssue m opts (int n) st i = Inr st'" and "lengths_ok n st"
  shows "lengths_ok n st'"
  using assms unfolding processIssue_def lengths_ok_def
  by (auto simp add: Let_def length_addAt_inside
      intro: length_addAt_closed length_addAt_mono length_foldEffort_mono
      split: sum.splits option.splits list.splits if_splits)

lemma processIssues_lengths:
  "processIssues m opts (int n) st issues = Inr st' \<Longrightarrow> lengths_ok n st
   \<Longrightarrow> lengths_ok n st'"
proof (induction issues arbitrary: st)
  case Nil
  then show ?case by simp
next
  case (Cons i issues)
  from Cons.prems(1) obtain t where
    t: "processIssue m opts (int n) st i = Inr t"
    and r: "processIssues m opts (int n) t issues = Inr st'"
    by (auto split: sum.splits)
  from t Cons.prems(2) have "lengths_ok n t" by (rule processIssue_lengths)
  with r show ?case by (rule Cons.IH)
qed

lemma generateBurndownChart_Inr:
  assumes "generateBurndownChart m issues opts = Inr c"
  obtains st where "0 \<le> daysOf m"
    and "processIssues m opts (daysOf m)
           \<lparr>issuesOpenedByDay = filled (nat (daysOf m)),
            issuesClosedByDay = filled (nat (daysOf m)),
            effortSpentByDay = filled (nat (daysOf m)),
            effortEstimatedByDay = filled (nat (daysOf m))\<rparr> issues = Inr st"
    and "c = deriveChart opts (nat (daysOf m)) st"
  using assms unfolding generateBurndownChart_def Let_def
  by (auto split: if_splits sum.splits)

text \<open>
  What holds of the lengths on every input: the derived series, the labels and the two
  arrays indexed by the day of adding have \<open>days\<close> entries; the array of the closed issues
  has \<open>days\<close> or \<open>days + 1\<close> entries, the array of the spent effort at least \<open>days\<close>.
\<close>

lemma series_lengths:
  assumes "generateBurndownChart m issues opts = Inr c"
  shows "length (labels c) = nat (daysOf m)
    \<and> length (remainingEffort c) = nat (daysOf m)
    \<and> length (idealBurndown c) = nat (daysOf m)
    \<and> length (remainingTasks c) = nat (daysOf m)
    \<and> length (issuesOpenedByDay (byDay c)) = nat (daysOf m)
    \<and> length (effortEstimatedByDay (byDay c)) = nat (daysOf m)
    \<and> nat (daysOf m) \<le> length (completedTasks c)
    \<and> length (completedTasks c) \<le> nat (daysOf m) + 1
    \<and> nat (daysOf m) \<le> length (effortSpentByDay (byDay c))"
proof -
  from assms obtain st where d: "0 \<le> daysOf m"
    and p: "processIssues m opts (daysOf m)
           \<lparr>issuesOpenedByDay = filled (nat (daysOf m)),
            issuesClosedByDay = filled (nat (daysOf m)),
            effortSpentByDay = filled (nat (daysOf m)),
            effortEstimatedByDay = filled (nat (daysOf m))\<rparr> issues = Inr st"
    and c: "c = deriveChart opts (nat (daysOf m)) st"
    by (rule generateBurndownChart_Inr)
  from d obtain n where n: "daysOf m = int n"
    using nonneg_int_cases by blast
  from p have "processIssues m opts (int n)
           \<lparr>issuesOpenedByDay = filled n, issuesClosedByDay = filled n,
            effortSpentByDay = filled n, effortEstimatedByDay = filled n\<rparr> issues = Inr st"
    by (simp add: n)
  then have "lengths_ok n st"
    by (rule processIssues_lengths) (simp add: lengths_ok_def filled_def)
  then show ?thesis
    by (simp add: c n deriveChart_def Let_def lengths_ok_def)
qed

subsection \<open>Writes past the end of the arrays\<close>

text \<open>
  C1 fails on the code. The milestone \<open>sprint\<close> has five days. The issue
  \<open>closedAfterDue\<close> was closed on day 5, the test \<^verbatim>\<open>dayClosed <= days\<close> lets it
  through, and \<^verbatim>\<open>issuesClosedByDay[5] += 1\<close> extends the array: the series of the
  completed tasks has six entries, the derived series have five.
\<close>

theorem closed_series_longer_than_days:
  "daysOf sprint = 5
   \<and> map_sum id
        (\<lambda>c. (length (issuesClosedByDay (byDay c)), length (completedTasks c),
              length (remainingTasks c), length (labels c)))
        (generateBurndownChart sprint [closedAfterDue] (defaultOptions sprint))
       = Inr (6, 6, 5, 5)"
  by code_simp

text \<open>
  C2 fails on the code. The issue \<open>closedLate\<close> is not skipped and its day of closing
  is 5, which is \<open>days\<close>: the code writes \<^verbatim>\<open>issuesClosedByDay[5]\<close>, one past the last
  day, and the entry is NaN (\<^verbatim>\<open>undefined + 1\<close>).
\<close>

theorem closed_on_day_after_due_is_counted:
  "daysOf sprint = 5
   \<and> map_option (\<lambda>t. dayOf t (startDate sprint)) (closedAt closedLate) = Some 5
   \<and> map_sum id (\<lambda>c. issuesClosedByDay (byDay c))
        (generateBurndownChart sprint [closedLate] (defaultOptions sprint))
       = Inr [Some (Fin 0), Some (Fin 0), Some (Fin 0), Some (Fin 0), Some (Fin 0),
              Some NaN]"
  by code_simp

text \<open>
  C6 fails on the code. The issue \<open>spentAfterDue\<close> has an hour logged for 2020-02-07,
  day 6 of a window whose last day is 4. \<^verbatim>\<open>Math.max(0, ...)\<close> bounds the index from
  below only: the code writes \<^verbatim>\<open>effortSpentByDay[6]\<close>, leaves a hole at 5, and the
  total effort becomes NaN.
\<close>

theorem effort_after_due_is_not_clamped:
  "daysOf sprint = 5
   \<and> map_sum id dayMap (getTimeSpent spentAfterDue (startDate sprint) (dueDate sprint))
       = Inr [(Some (feb 7), Fin 1)]
   \<and> dayIndex (startDate sprint) (Some (feb 7)) = Some 6
   \<and> map_sum id (\<lambda>c. (effortSpentByDay (byDay c), totalEffort c))
        (generateBurndownChart sprint [spentAfterDue] (defaultOptions sprint))
       = Inr ([Some (Fin 0), Some (Fin 0), Some (Fin 0), Some (Fin 0), Some (Fin 0),
               None, Some NaN], NaN)"
  by code_simp

subsection \<open>The ideal burndown\<close>

text \<open>
  Point \<open>i\<close> of the ideal burndown is the expression of the source,
  \<^verbatim>\<open>totalEffort - ((totalEffort / (days - 1)) * i)\<close>, for every number of days; nothing
  is said here of the value of the quotient.
\<close>

lemma ideal_burndown_expression:
  assumes "generateBurndownChart m issues opts = Inr c"
    and "i < nat (daysOf m)"
  shows "idealBurndown c ! i =
     jsub (totalEffort c)
       (jmul (jdiv (totalEffort c) (Fin (rat_of_nat (nat (daysOf m)) - 1)))
          (Fin (rat_of_nat i)))"
proof -
  from assms(1) obtain st where c: "c = deriveChart opts (nat (daysOf m)) st"
    by (rule generateBurndownChart_Inr)
  from assms(2) show ?thesis
    by (simp add: c deriveChart_def Let_def)
qed

subsubsection \<open>The ideal burndown of a milestone of one day\<close>

text \<open>
  C5 fails on the code. With the start date equal to the due date there is one day, and
  \<^verbatim>\<open>totalEffort / (days - 1)\<close> divides by zero: the quotient is infinite, its product
  with the index 0 is NaN, and the only point of the ideal burndown is NaN while the
  total effort is 1.
\<close>

theorem ideal_burndown_of_one_day_is_NaN:
  "daysOf oneDay = 1
   \<and> map_sum id (\<lambda>c. (totalEffort c, idealBurndown c))
        (generateBurndownChart oneDay [closedSameDay] (defaultOptions oneDay))
       = Inr (Fin 1, [NaN])"
  by code_simp

subsection \<open>Spendings of the same day\<close>

text \<open>
  C4 fails on the code. The issue \<open>twoSpendings\<close> has one hour and two hours logged
  for 2020-02-03. The total is 3, and the entry of that day is 2, the hours of the last
  spending: the assignment reads \<^verbatim>\<open>timeSpent[key]\<close>, not \<^verbatim>\<open>timeSpent.days[key]\<close>,
  so it never finds the hours already stored.
\<close>

theorem same_day_spendings_overwrite:
  "getTimeSpent twoSpendings (startDate sprint) (dueDate sprint)
     = Inr \<lparr>total = Fin 3, dayMap = [(Some (feb 3), Fin 2)]\<rparr>"
  by code_simp

subsection \<open>The matcher\<close>

lemma run_append_prefix: "run (as @ bs) s \<noteq> None \<Longrightarrow> run as s \<noteq> None"
proof (induction as s rule: run.induct)
  case (8 k as x xs)
  then show ?case by (auto split: if_splits option.splits)
qed (auto split: if_splits)

lemma run_Star_split:
  "run (Star k # as) s \<noteq> None \<Longrightarrow> \<exists>p t. s = p @ t \<and> run as t \<noteq> None"
proof (induction s)
  case Nil
  then show ?case by auto
next
  case (Cons x xs)
  show ?case
  proof (cases "in_cls k x \<and> run (Star k # as) xs \<noteq> None")
    case True
    with Cons.IH obtain p t where "xs = p @ t" "run as t \<noteq> None" by blast
    then have "x # xs = (x # p) @ t" by simp
    with \<open>run as t \<noteq> None\<close> show ?thesis by blast
  next
    case False
    with Cons.prems have "run as (x # xs) \<noteq> None"
      by (auto split: if_splits option.splits)
    then have "x # xs = [] @ (x # xs) \<and> run as (x # xs) \<noteq> None" by simp
    then show ?thesis by blast
  qed
qed

lemma run_Star_complete:
  "list_all (in_cls k) p \<Longrightarrow> run as t \<noteq> None \<Longrightarrow> run (Star k # as) (p @ t) \<noteq> None"
proof (induction p)
  case Nil
  then show ?case by (cases t) (auto split: option.splits)
next
  case (Cons a p)
  then show ?case by (auto split: option.splits)
qed

lemma search_complete: "run as t \<noteq> None \<Longrightarrow> search as (p @ t) \<noteq> None"
proof (induction p)
  case Nil
  then show ?case by (cases t) (auto split: option.splits)
next
  case (Cons a p)
  then show ?case by (auto split: option.splits)
qed

lemma run_lit:
  "run (lit w @ as) s \<noteq> None \<longleftrightarrow> (\<exists>t. s = w @ t \<and> run as t \<noteq> None)"
proof (induction w arbitrary: s)
  case Nil
  then show ?case by (simp add: lit_def)
next
  case (Cons a w)
  then show ?case by (cases s) (auto simp: lit_def)
qed

text \<open>A body that the filter accepts has a match of \<^verbatim>\<open>/at (\d{4}-\d{2}-\d{2})/\<close>.\<close>

lemma spending_has_date:
  assumes "run rx_spending b \<noteq> None"
  shows "search rx_at_date b \<noteq> None"
proof -
  from assms obtain t where t: "b = ''added'' @ t"
    and "run (Star AnyChar # (lit ''at '' @ rx_date) @ [Eos]) t \<noteq> None"
    unfolding rx_spending_def using run_lit [of "''added''"]
    by (metis append.assoc append_Cons append_Nil)
  then obtain p t' where t': "t = p @ t'"
    and r: "run ((lit ''at '' @ rx_date) @ [Eos]) t' \<noteq> None"
    using run_Star_split by blast
  from r have "run rx_at_date t' \<noteq> None"
    unfolding rx_at_date_def by (rule run_append_prefix)
  then have "search rx_at_date ((''added'' @ p) @ t') \<noteq> None"
    by (rule search_complete)
  with t t' show ?thesis by simp
qed

text \<open>
  \<^verbatim>\<open>/added (.*) at/\<close> matches every text in which \<^verbatim>\<open>"added "\<close> is followed, on the
  same line, by \<^verbatim>\<open>" at"\<close>.
\<close>

lemma rx_time_matches:
  assumes "list_all (in_cls AnyChar) y"
  shows "search rx_time (x @ ''added '' @ y @ '' at'' @ z) \<noteq> None"
proof -
  have "run (lit '' at'' @ []) ('' at'' @ z) \<noteq> None"
    unfolding run_lit by simp
  then have "run (Star AnyChar # lit '' at'') (y @ '' at'' @ z) \<noteq> None"
    using run_Star_complete [OF assms] by simp
  then have "run (lit ''added '' @ Star AnyChar # lit '' at'') (''added '' @ y @ '' at'' @ z)
      \<noteq> None"
    unfolding run_lit by simp
  then have "run rx_time (''added '' @ y @ '' at'' @ z) \<noteq> None"
    by (simp add: rx_time_def)
  then show ?thesis by (rule search_complete)
qed

subsection \<open>The extractor on one note\<close>

lemma toSpending_depends:
  "notes c = n # ns \<Longrightarrow>
   toSpending c =
     map_sum id (\<lambda>sp. sp\<lparr>spentBy := author c\<rparr>) (toSpending (systemNote (body n) t))"
  by (simp add: toSpending_def systemNote_def Let_def split: option.splits)

lemma filterE_append:
  "filterE p (xs @ ys) =
     (case filterE p xs of
        Inl e \<Rightarrow> Inl e
      | Inr a \<Rightarrow> (case filterE p ys of Inl e \<Rightarrow> Inl e | Inr b \<Rightarrow> Inr (a @ b)))"
  by (induction xs) (auto split: sum.splits)

lemma spentExample_value:
  "toSpending spentExample =
     Inr \<lparr>spentBy = ''ghost'', date = Some (feb 25), spentDays = 1, spentHours = 2,
          spentMinutes = 30, totalHours = Fin (21 / 2)\<rparr>"
  by code_simp

lemma spentExample_accepted:
  "run rx_spending ''added 1d 2h 30m of time spent at 2020-02-25'' \<noteq> None"
  by code_simp

text \<open>
  C7. An issue whose discussion has one spending, a system note created inside the
  window with the body \<^verbatim>\<open>added 1d 2h 30m of time spent at 2020-02-25\<close>, and no other
  comment that the filter accepts: the spending has 1 day, 2 hours and 30 minutes, its
  total is \<open>1 * 8 + 2 + 30 / 60 = 21 / 2\<close> hours, and its date is midnight UTC of
  2020-02-25, which is \<open>feb 25\<close>. The effort returned has that total, on that date.
\<close>

theorem spent_1d_2h_30m:
  assumes d: "discussion i = before @ [c] @ after"
    and b: "filterE (isSpendingComment startD endD) before = Inr []"
    and a: "filterE (isSpendingComment startD endD) after = Inr []"
    and n: "notes c = n # ns"
    and body: "body n = ''added 1d 2h 30m of time spent at 2020-02-25''"
    and sys: "system n"
    and w: "startD \<le> createdAt n" "createdAt n \<le> endD"
  shows "toSpending c =
           Inr \<lparr>spentBy = author c, date = Some (feb 25), spentDays = 1, spentHours = 2,
                spentMinutes = 30, totalHours = Fin (1 * 8 + 2 + 30 / 60)\<rparr>
    \<and> getTimeSpent i startD endD =
           Inr \<lparr>total = Fin (21 / 2), dayMap = [(Some (feb 25), Fin (21 / 2))]\<rparr>
    \<and> dateGetTime ''2020-02-25'' = Some (feb 25)"
proof -
  have sp: "toSpending c =
           Inr \<lparr>spentBy = author c, date = Some (feb 25), spentDays = 1, spentHours = 2,
                spentMinutes = 30, totalHours = Fin (21 / 2)\<rparr>"
  proof -
    have "toSpending c =
        map_sum id (\<lambda>sp. sp\<lparr>spentBy := author c\<rparr>) (toSpending spentExample)"
      using toSpending_depends [OF n, of "feb 2"] by (simp only: body spentExample_def)
    then show ?thesis by (simp add: spentExample_value)
  qed
  have acc: "isSpendingComment startD endD c = Inr True"
    using spentExample_accepted by (simp add: isSpendingComment_def n body sys w)
  have "filterE (isSpendingComment startD endD) (discussion i) = Inr [c]"
    by (simp add: d filterE_append a b acc)
  then have "getTimeSpent i startD endD =
           Inr \<lparr>total = Fin (21 / 2), dayMap = [(Some (feb 25), Fin (21 / 2))]\<rparr>"
    by (simp add: getTimeSpent_def sp addSpending_def readTimeSpent_def)
  moreover have "dateGetTime ''2020-02-25'' = Some (feb 25)" by code_simp
  ultimately show ?thesis using sp by simp
qed

theorem spent_1d_2h_30m_witness:
  "toSpending spentExample =
     Inr \<lparr>spentBy = ''ghost'', date = Some 1582588800000, spentDays = 1, spentHours = 2,
          spentMinutes = 30, totalHours = Fin (21 / 2)\<rparr>
   \<and> getTimeSpent spentExampleIssue (feb 1) (feb 5) =
       Inr \<lparr>total = Fin (21 / 2), dayMap = [(Some 1582588800000, Fin (21 / 2))]\<rparr>"
proof -
  have d: "discussion spentExampleIssue = [assigned] @ [spentExample] @ []"
    by (simp add: spentExampleIssue_def)
  have b: "filterE (isSpendingComment (feb 1) (feb 5)) [assigned] = Inr []"
    by code_simp
  have a: "filterE (isSpendingComment (feb 1) (feb 5)) [] = Inr []"
    by simp
  have n: "notes spentExample =
      \<lparr>body = ''added 1d 2h 30m of time spent at 2020-02-25'', system = True,
       createdAt = feb 2, updatedAt = feb 2\<rparr> # []"
    by (simp add: spentExample_def systemNote_def)
  have au: "author spentExample = ''ghost''"
    by (simp add: spentExample_def systemNote_def)
  show ?thesis
    using spent_1d_2h_30m [OF d b a n]
    by (simp add: feb_def au)
qed

text \<open>
  Where the first note has a match of \<^verbatim>\<open>/added (.*) at/\<close>, the callback of \<^verbatim>\<open>map\<close>
  throws nothing on a comment that the filter accepts, and an amount whose unit has no
  match in the duration text is 0.
\<close>

lemma accepted_spending_with_match:
  assumes acc: "isSpendingComment startD endD c = Inr True"
    and n: "notes c = n # ns"
    and t: "search rx_time (body n) = Some r"
  shows "\<exists>sp. toSpending c = Inr sp
    \<and> (search (rx_unit (CHR ''d'')) (r ! 6) = None \<longrightarrow> spentDays sp = 0)
    \<and> (search (rx_unit (CHR ''h'')) (r ! 6) = None \<longrightarrow> spentHours sp = 0)
    \<and> (search (rx_unit (CHR ''m'')) (r ! 6) = None \<longrightarrow> spentMinutes sp = 0)"
proof -
  from acc n have "run rx_spending (body n) \<noteq> None"
    by (simp add: isSpendingComment_def Let_def)
  then obtain r' where "search rx_at_date (body n) = Some r'"
    using spending_has_date by blast
  with n t show ?thesis
    by (simp add: toSpending_def Let_def unitAmount_def)
qed

text \<open>
  C9 fails on the code. The note \<^verbatim>\<open>added at 2020-02-02\<close> is a system note created
  inside the window and \<^verbatim>\<open>/^added.*at \d{4}-\d{2}-\d{2}$/\<close> matches its body, so the
  filter accepts it. \<^verbatim>\<open>/added (.*) at/\<close> has no match in it, the read of \<^verbatim>\<open>[1]\<close> on
  \<^verbatim>\<open>null\<close> is not guarded, and the extractor throws a TypeError instead of completing
  with hours.
\<close>

theorem accepted_note_throws_TypeError:
  "isSpendingComment (feb 1) (feb 5) noDuration = Inr True
   \<and> search rx_time ''added at 2020-02-02'' = None
   \<and> toSpending noDuration = Inl TypeError
   \<and> getTimeSpent \<lparr>discussion = [noDuration], closedAt = None, totalTimeSpent = 0\<rparr>
        (feb 1) (feb 5) = Inl TypeError"
  by code_simp

subsection \<open>The option includeOpen\<close>

lemma processIssue_includeOpen:
  assumes "processIssue m (opts\<lparr>includeOpen := a\<rparr>) days st1 i = Inr s1"
    and "processIssue m (opts\<lparr>includeOpen := b\<rparr>) days st2 i = Inr s2"
    and "issuesOpenedByDay st1 = issuesOpenedByDay st2"
    and "issuesClosedByDay st1 = issuesClosedByDay st2"
    and "effortEstimatedByDay st1 = effortEstimatedByDay st2"
  shows "issuesOpenedByDay s1 = issuesOpenedByDay s2
    \<and> issuesClosedByDay s1 = issuesClosedByDay s2
    \<and> effortEstimatedByDay s1 = effortEstimatedByDay s2"
  using assms unfolding processIssue_def
  by (auto simp: Let_def split: sum.splits option.splits list.splits if_splits)

lemma processIssues_includeOpen:
  assumes "processIssues m (opts\<lparr>includeOpen := a\<rparr>) days st1 issues = Inr s1"
    and "processIssues m (opts\<lparr>includeOpen := b\<rparr>) days st2 issues = Inr s2"
    and "issuesOpenedByDay st1 = issuesOpenedByDay st2
      \<and> issuesClosedByDay st1 = issuesClosedByDay st2
      \<and> effortEstimatedByDay st1 = effortEstimatedByDay st2"
  shows "issuesOpenedByDay s1 = issuesOpenedByDay s2
    \<and> issuesClosedByDay s1 = issuesClosedByDay s2
    \<and> effortEstimatedByDay s1 = effortEstimatedByDay s2"
  using assms
proof (induction issues arbitrary: st1 st2)
  case Nil
  then show ?case by simp
next
  case (Cons i issues)
  from Cons.prems(1) obtain t1 where
    t1: "processIssue m (opts\<lparr>includeOpen := a\<rparr>) days st1 i = Inr t1"
    and r1: "processIssues m (opts\<lparr>includeOpen := a\<rparr>) days t1 issues = Inr s1"
    by (auto split: sum.splits)
  from Cons.prems(2) obtain t2 where
    t2: "processIssue m (opts\<lparr>includeOpen := b\<rparr>) days st2 i = Inr t2"
    and r2: "processIssues m (opts\<lparr>includeOpen := b\<rparr>) days t2 issues = Inr s2"
    by (auto split: sum.splits)
  from Cons.prems(3) have "issuesOpenedByDay t1 = issuesOpenedByDay t2
      \<and> issuesClosedByDay t1 = issuesClosedByDay t2
      \<and> effortEstimatedByDay t1 = effortEstimatedByDay t2"
    using processIssue_includeOpen [OF t1 t2] by simp
  with r1 r2 show ?case by (rule Cons.IH)
qed

text \<open>
  C10. Two runs on the same milestone, the same issues and options that differ in
  \<open>includeOpen\<close> only, both returning a chart: the arrays of the opened and of the
  closed issues and of the estimated effort, and the series of the completed and of the
  remaining tasks, are the same in the two charts.
\<close>

theorem includeOpen_leaves_task_series:
  assumes "generateBurndownChart m milestoneIssues (opts\<lparr>includeOpen := a\<rparr>) = Inr c1"
    and "generateBurndownChart m milestoneIssues (opts\<lparr>includeOpen := b\<rparr>) = Inr c2"
  shows "issuesOpenedByDay (byDay c1) = issuesOpenedByDay (byDay c2)
    \<and> issuesClosedByDay (byDay c1) = issuesClosedByDay (byDay c2)
    \<and> effortEstimatedByDay (byDay c1) = effortEstimatedByDay (byDay c2)
    \<and> completedTasks c1 = completedTasks c2
    \<and> remainingTasks c1 = remainingTasks c2"
proof -
  let ?st = "\<lparr>issuesOpenedByDay = filled (nat (daysOf m)),
             issuesClosedByDay = filled (nat (daysOf m)),
             effortSpentByDay = filled (nat (daysOf m)),
             effortEstimatedByDay = filled (nat (daysOf m))\<rparr>"
  from assms(1) obtain s1 where
    s1: "processIssues m (opts\<lparr>includeOpen := a\<rparr>) (daysOf m) ?st milestoneIssues = Inr s1"
    and c1: "c1 = deriveChart (opts\<lparr>includeOpen := a\<rparr>) (nat (daysOf m)) s1"
    unfolding generateBurndownChart_def Let_def
    by (auto split: if_splits sum.splits)
  from assms(2) obtain s2 where
    s2: "processIssues m (opts\<lparr>includeOpen := b\<rparr>) (daysOf m) ?st milestoneIssues = Inr s2"
    and c2: "c2 = deriveChart (opts\<lparr>includeOpen := b\<rparr>) (nat (daysOf m)) s2"
    unfolding generateBurndownChart_def Let_def
    by (auto split: if_splits sum.splits)
  have "issuesOpenedByDay s1 = issuesOpenedByDay s2
      \<and> issuesClosedByDay s1 = issuesClosedByDay s2
      \<and> effortEstimatedByDay s1 = effortEstimatedByDay s2"
    by (rule processIssues_includeOpen [OF s1 s2]) simp
  then show ?thesis
    by (simp add: c1 c2 deriveChart_def Let_def)
qed

theorem includeOpen_leaves_task_series_witness:
  "\<not> isl (generateBurndownChart sprint [stillOpen, closedAfterDue]
            ((defaultOptions sprint)\<lparr>includeOpen := True\<rparr>))
   \<and> \<not> isl (generateBurndownChart sprint [stillOpen, closedAfterDue]
            ((defaultOptions sprint)\<lparr>includeOpen := False\<rparr>))
   \<and> map_sum id (\<lambda>c. (issuesOpenedByDay (byDay c), issuesClosedByDay (byDay c),
                      effortEstimatedByDay (byDay c), completedTasks c, remainingTasks c))
        (generateBurndownChart sprint [stillOpen, closedAfterDue]
            ((defaultOptions sprint)\<lparr>includeOpen := True\<rparr>))
     = map_sum id (\<lambda>c. (issuesOpenedByDay (byDay c), issuesClosedByDay (byDay c),
                      effortEstimatedByDay (byDay c), completedTasks c, remainingTasks c))
        (generateBurndownChart sprint [stillOpen, closedAfterDue]
            ((defaultOptions sprint)\<lparr>includeOpen := False\<rparr>))
   \<and> map_sum id (\<lambda>c. effortSpentByDay (byDay c))
        (generateBurndownChart sprint [stillOpen, closedAfterDue]
            ((defaultOptions sprint)\<lparr>includeOpen := True\<rparr>))
     \<noteq> map_sum id (\<lambda>c. effortSpentByDay (byDay c))
        (generateBurndownChart sprint [stillOpen, closedAfterDue]
            ((defaultOptions sprint)\<lparr>includeOpen := False\<rparr>))"
proof -
  let ?on = "generateBurndownChart sprint [stillOpen, closedAfterDue]
            ((defaultOptions sprint)\<lparr>includeOpen := True\<rparr>)"
  let ?off = "generateBurndownChart sprint [stillOpen, closedAfterDue]
            ((defaultOptions sprint)\<lparr>includeOpen := False\<rparr>)"
  have on: "\<not> isl ?on" by code_simp
  have off: "\<not> isl ?off" by code_simp
  have spent: "map_sum id (\<lambda>c. effortSpentByDay (byDay c)) ?on
      \<noteq> map_sum id (\<lambda>c. effortSpentByDay (byDay c)) ?off"
    by code_simp
  from on obtain c1 where c1: "?on = Inr c1" by (cases ?on) auto
  from off obtain c2 where c2: "?off = Inr c2" by (cases ?off) auto
  show ?thesis
    using includeOpen_leaves_task_series [OF c1 c2] on off spent
    by (simp add: c1 c2)
qed

subsection \<open>The option includeOpen with the default callbacks\<close>

text \<open>
  With the callbacks of \<open>defaultOptions\<close> the two runs also end the same way: the
  second call of \<^verbatim>\<open>getTimeSpent\<close>, on the sorted discussion, throws only if the first
  call did, so either both runs throw or both return a chart.
\<close>

lemma filterE_isl: "isl (filterE p xs) \<longleftrightarrow> (\<exists>x \<in> set xs. isl (p x))"
  by (induction xs) (auto split: sum.splits)

lemma mapE_isl: "isl (mapE f xs) \<longleftrightarrow> (\<exists>x \<in> set xs. isl (f x))"
  by (induction xs) (auto split: sum.splits)

lemma filterE_Inr:
  "filterE p xs = Inr ys \<Longrightarrow> ys = filter (\<lambda>x. p x = Inr True) xs"
proof (induction xs arbitrary: ys)
  case Nil
  then show ?case by simp
next
  case (Cons x xs)
  from Cons.prems obtain b zs where b: "p x = Inr b" and zs: "filterE p xs = Inr zs"
    and ys: "ys = (if b then x # zs else zs)"
    by (simp split: sum.splits)
  from zs have "zs = filter (\<lambda>x. p x = Inr True) xs" by (rule Cons.IH)
  with b ys show ?case by simp
qed

lemma getTimeSpent_isl:
  "isl (getTimeSpent i s e) \<longleftrightarrow>
     (\<exists>c \<in> set (discussion i).
        isl (isSpendingComment s e c)
        \<or> (isSpendingComment s e c = Inr True \<and> isl (toSpending c)))"
proof (cases "filterE (isSpendingComment s e) (discussion i)")
  case (Inl x)
  then have "isl (filterE (isSpendingComment s e) (discussion i))" by simp
  then have "\<exists>c \<in> set (discussion i). isl (isSpendingComment s e c)"
    by (simp only: filterE_isl)
  moreover from Inl have "isl (getTimeSpent i s e)" by (simp add: getTimeSpent_def)
  ultimately show ?thesis by blast
next
  case (Inr cs)
  then have "\<not> isl (filterE (isSpendingComment s e) (discussion i))" by simp
  then have none: "\<forall>c \<in> set (discussion i). \<not> isl (isSpendingComment s e c)"
    by (simp only: filterE_isl) blast
  have cs: "cs = filter (\<lambda>c. isSpendingComment s e c = Inr True) (discussion i)"
    using Inr by (rule filterE_Inr)
  have "isl (getTimeSpent i s e) \<longleftrightarrow> isl (mapE toSpending cs)"
    by (simp add: getTimeSpent_def Inr Let_def split: sum.splits)
  also have "\<dots> \<longleftrightarrow> (\<exists>c \<in> set cs. isl (toSpending c))"
    by (rule mapE_isl)
  also have "\<dots> \<longleftrightarrow> (\<exists>c \<in> set (discussion i).
        isSpendingComment s e c = Inr True \<and> isl (toSpending c))"
    unfolding cs by auto
  finally show ?thesis using none by blast
qed


lemma getTimeSpent_sorted_isl:
  "isl (getTimeSpent (i\<lparr>discussion := sortDiscussion (discussion i)\<rparr>) s e)
     \<longleftrightarrow> isl (getTimeSpent i s e)"
  unfolding getTimeSpent_isl by (simp add: sortDiscussion_def)

lemma processIssue_default_isl:
  "isl (processIssue m ((defaultOptions m)\<lparr>includeOpen := a\<rparr>) days st i) \<longleftrightarrow>
     isl (getTimeSpent i (startDate m) (dueDate m))
     \<or> (case find (isMilestoneChange m) (sortDiscussion (discussion i)) of
          None \<Rightarrow> True | Some c \<Rightarrow> notes c = [])"
proof (cases "getTimeSpent i (startDate m) (dueDate m)")
  case (Inl x)
  then show ?thesis by (simp add: processIssue_def)
next
  case (Inr r)
  then have "\<not> isl (getTimeSpent (i\<lparr>discussion := sortDiscussion (discussion i)\<rparr>)
      (startDate m) (dueDate m))"
    by (simp only: getTimeSpent_sorted_isl) simp
  then obtain r' where r': "getTimeSpent (i\<lparr>discussion := sortDiscussion (discussion i)\<rparr>)
      (startDate m) (dueDate m) = Inr r'"
    by (cases "getTimeSpent (i\<lparr>discussion := sortDiscussion (discussion i)\<rparr>)
      (startDate m) (dueDate m)") auto
  show ?thesis
  proof (cases "find (isMilestoneChange m) (sortDiscussion (discussion i))")
    case None
    with Inr show ?thesis by (simp add: processIssue_def Let_def)
  next
    case (Some c)
    show ?thesis
    proof (cases "notes c")
      case Nil
      with Inr Some show ?thesis by (simp add: processIssue_def Let_def)
    next
      case (Cons n ns)
      show ?thesis
      proof (cases "closedAt i")
        case None
        with Inr Some Cons r' show ?thesis
          by (simp add: processIssue_def defaultOptions_def Let_def)
      next
        case (Some t)
        with Inr \<open>find (isMilestoneChange m) (sortDiscussion (discussion i)) = Some c\<close>
          Cons r' show ?thesis
          by (simp add: processIssue_def defaultOptions_def Let_def)
      qed
    qed
  qed
qed

lemma processIssues_default_isl:
  "isl (processIssues m ((defaultOptions m)\<lparr>includeOpen := a\<rparr>) days st1 issues)
     \<longleftrightarrow> isl (processIssues m ((defaultOptions m)\<lparr>includeOpen := b\<rparr>) days st2 issues)"
proof (induction issues arbitrary: st1 st2)
  case Nil
  then show ?case by simp
next
  case (Cons i issues)
  have same: "isl (processIssue m ((defaultOptions m)\<lparr>includeOpen := a\<rparr>) days st1 i)
     \<longleftrightarrow> isl (processIssue m ((defaultOptions m)\<lparr>includeOpen := b\<rparr>) days st2 i)"
    unfolding processIssue_default_isl ..
  show ?case
  proof (cases "processIssue m ((defaultOptions m)\<lparr>includeOpen := a\<rparr>) days st1 i")
    case (Inl x)
    with same obtain y where
      "processIssue m ((defaultOptions m)\<lparr>includeOpen := b\<rparr>) days st2 i = Inl y"
      by (cases "processIssue m ((defaultOptions m)\<lparr>includeOpen := b\<rparr>) days st2 i") auto
    with Inl show ?thesis by simp
  next
    case (Inr t1)
    with same obtain t2 where
      "processIssue m ((defaultOptions m)\<lparr>includeOpen := b\<rparr>) days st2 i = Inr t2"
      by (cases "processIssue m ((defaultOptions m)\<lparr>includeOpen := b\<rparr>) days st2 i") auto
    with Inr Cons.IH [of t1 t2] show ?thesis by simp
  qed
qed

lemma default_runs_fail_together:
  "isl (generateBurndownChart m issues ((defaultOptions m)\<lparr>includeOpen := a\<rparr>))
     \<longleftrightarrow> isl (generateBurndownChart m issues ((defaultOptions m)\<lparr>includeOpen := b\<rparr>))"
proof -
  let ?st = "\<lparr>issuesOpenedByDay = filled (nat (daysOf m)),
             issuesClosedByDay = filled (nat (daysOf m)),
             effortSpentByDay = filled (nat (daysOf m)),
             effortEstimatedByDay = filled (nat (daysOf m))\<rparr>"
  have "isl (processIssues m ((defaultOptions m)\<lparr>includeOpen := a\<rparr>) (daysOf m) ?st issues)
     \<longleftrightarrow> isl (processIssues m ((defaultOptions m)\<lparr>includeOpen := b\<rparr>) (daysOf m) ?st issues)"
    by (rule processIssues_default_isl)
  then show ?thesis
    unfolding generateBurndownChart_def Let_def
    by (auto split: sum.splits)
qed

end
